theory Spec2Isabelle
  imports Main
begin

section \<open>JavaScript strings\<close>

text \<open>
  A JavaScript string is a sequence of UTF-16 code units.  The model uses \<open>string\<close>
  (a list of 8-bit characters) and reads each character as the code unit with the same
  number, so it covers the strings whose code units lie in U+0000..U+00FF; \<open>length\<close>
  is then the JavaScript \<open>.length\<close>.  In that range the white space of
  \<open>String.prototype.trim\<close> and of the regular expression class \<open>\s\<close> is the same
  set: TAB, LF, VT, FF, CR, SPACE and NBSP.
\<close>

definition isSpace :: "char \<Rightarrow> bool" where
  "isSpace c = (of_char c \<in> {9, 10, 11, 12, 13, 32, 160 :: nat})"

text \<open>\<open>s.trim()\<close>: drop the white space at both ends.\<close>

definition trim :: "string \<Rightarrow> string" where
  "trim s = rev (dropWhile isSpace (rev (dropWhile isSpace s)))"

text \<open>
  \<^verbatim>\<open>content.replace(/<[^>]*>/g, '')\<close>: the global replace scans from the left.  At
  an opening angle bracket the pattern matches exactly when a closing angle bracket
  follows somewhere, and then (the class excluding only the closing bracket) it extends
  to the first closing bracket; the scan goes on after the match.  Any other character
  is kept.
\<close>

function strip_tags :: "string \<Rightarrow> string" where
  "strip_tags [] = []"
| "strip_tags (c # cs) =
     (if c = CHR ''<'' \<and> CHR ''>'' \<in> set cs
      then strip_tags (tl (dropWhile (\<lambda>x. x \<noteq> CHR ''>'') cs))
      else c # strip_tags cs)"
  by pat_completeness auto
termination
proof (relation "measure length")
  show "wf (measure (length :: string \<Rightarrow> nat))" by simp
next
  fix c :: char and cs :: string
  have "length (tl (dropWhile (\<lambda>x. x \<noteq> CHR ''>'') cs)) \<le> length cs"
    using length_dropWhile_le [of "\<lambda>x. x \<noteq> CHR ''>''" cs] by simp
  then show "(tl (dropWhile (\<lambda>x. x \<noteq> CHR ''>'') cs), c # cs) \<in> measure length"
    by simp
next
  fix c :: char and cs :: string
  show "(cs, c # cs) \<in> measure length" by simp
qed

text \<open>
  \<open>plainText.split(/\s+/)\<close>: the pieces between the maximal runs of white space.  The
  first argument is the piece being collected.  On the empty string the result is the
  single empty piece, as in JavaScript.
\<close>

function split_ws :: "string \<Rightarrow> string \<Rightarrow> string list" where
  "split_ws piece [] = [piece]"
| "split_ws piece (c # cs) =
     (if isSpace c then piece # split_ws [] (dropWhile isSpace cs)
      else split_ws (piece @ [c]) cs)"
  by pat_completeness auto
termination
proof (relation "measure (\<lambda>(piece, s). length s)")
  show "wf (measure (\<lambda>(piece :: string, s :: string). length s))" by simp
next
  fix piece :: string and c :: char and cs :: string
  have "length (dropWhile isSpace cs) \<le> length cs"
    by (rule length_dropWhile_le)
  then show "(([], dropWhile isSpace cs), (piece, c # cs)) \<in> measure (\<lambda>(piece, s). length s)"
    by simp
next
  fix piece :: string and c :: char and cs :: string
  show "((piece @ [c], cs), (piece, c # cs)) \<in> measure (\<lambda>(piece, s). length s)"
    by simp
qed

text \<open>
  The statistics of \<open>updateStats\<close>:
  \<^verbatim>\<open>
  const plainText = content.replace(/<[^>]*>/g, '').trim()
  const words = plainText.length > 0 ? plainText.split(/\s+/).length : 0
  const chars = plainText.length
  \<close>
\<close>

definition plainText :: "string \<Rightarrow> string" where
  "plainText content = trim (strip_tags content)"

definition words :: "string \<Rightarrow> nat" where
  "words content =
     (if length (plainText content) > 0 then length (split_ws [] (plainText content)) else 0)"

definition chars :: "string \<Rightarrow> nat" where
  "chars content = length (plainText content)"

text \<open>
  The specification's wording of the word count: the number of whitespace-separated
  runs, that is, of maximal runs of characters that are not white space.  A run starts
  at a character that is not white space and follows white space or the start.
\<close>

fun count_runs_from :: "bool \<Rightarrow> string \<Rightarrow> nat" where
  "count_runs_from prev [] = 0"
| "count_runs_from prev (c # cs) =
     (if \<not> isSpace c \<and> prev then 1 else 0) + count_runs_from (isSpace c) cs"

definition spec_word_runs :: "string \<Rightarrow> nat" where
  "spec_word_runs s = count_runs_from True s"


text \<open>
  \<open>Date.now().toString()\<close>: the decimal digits of the clock reading (a count of
  milliseconds).
\<close>

fun toString :: "nat \<Rightarrow> string" where
  "toString n =
     (if n < 10 then [char_of (48 + n)] else toString (n div 10) @ [char_of (48 + n mod 10)])"

text \<open>
  Truthiness of a value that is a string, \<open>null\<close> or \<open>undefined\<close> (\<open>None\<close>): only a
  non-empty string is truthy.
\<close>

fun truthy :: "string option \<Rightarrow> bool" where
  "truthy None = False"
| "truthy (Some s) = (s \<noteq> [])"

section \<open>The component's data\<close>

text \<open>
  A document of the collection.  \<open>createNewBlog\<close> gives a document the fields
  \<open>wordCount\<close> and \<open>charCount\<close>; the seed document of the first run has neither.
\<close>

record blog =
  blog_id :: string
  blog_title :: string
  blog_content :: string
  blog_createdAt :: string
  blog_lastSaved :: string
  blog_wordCount :: "nat option"
  blog_charCount :: "nat option"

text \<open>The nine \<open>useState\<close> cells of \<open>App\<close>, with their initial values.\<close>

record state =
  blogs :: "blog list"
  currentBlogId :: "string option"
  title :: string
  isSaved :: bool
  lastSaved :: "string option"
  wordCount :: nat
  charCount :: nat
  showNewBlogForm :: bool
  newBlogTitle :: string

definition initial_state :: state where
  "initial_state =
     \<lparr>blogs = [], currentBlogId = None, title = ''Untitled Document'', isSaved = True,
      lastSaved = None, wordCount = 0, charCount = 0, showNewBlogForm = False,
      newBlogTitle = []\<rparr>"

text \<open>
  \<open>localStorage\<close>: the two keys of \<open>STORAGE_KEYS\<close>.  The collection is stored as the
  list that \<open>JSON.parse\<close> returns for what \<open>JSON.stringify\<close> wrote.
  \<open>quotaExceeded\<close> says that \<open>setItem\<close> throws.
\<close>

record localStorage =
  editor_blogs :: "blog list option"
  editor_current_blog_id :: "string option"
  quotaExceeded :: bool

text \<open>
  A function created during a render sees the \<open>blogs\<close> and \<open>currentBlogId\<close> of that
  render for as long as it lives.  \<open>handleContentChange\<close> and the callback it hands to
  \<open>setTimeout\<close> are created by the mount effect, whose dependency list is empty, so they
  are created once; the values they see are kept in a \<open>closure\<close>.
\<close>

record closure =
  seen_blogs :: "blog list"
  seen_currentBlogId :: "string option"

record timer =
  timer_id :: nat
  due :: nat
  callback :: closure

text \<open>
  Everything a handler reads or writes: the state cells, the three refs
  (\<open>rteInstance.current\<close> is \<open>None\<close> for \<open>null\<close> and otherwise holds the content that
  \<open>getContent()\<close> returns, \<open>autoSaveTimerRef.current\<close> a timer id), the storage, the
  timers that \<open>setTimeout\<close> armed and that have neither fired nor been cleared, the
  listener on the editor element, and the messages shown by \<open>alert\<close>.  The editor is
  the opaque widget of the three-method contract: \<open>getContent()\<close> returns what
  \<open>setContent\<close> or the user put there.

  A state setter queues its value for the next render, and the function that calls it
  goes on reading the values of the render it was created in.  So a handler reads the
  state of the world it is given (or of the render passed as a separate argument), and
  the setters build the state the next render shows.  Refs and the storage are read and
  written in place.  Effects are steps of their own: \<open>mount\<close>, its \<open>cleanup\<close> (run
  at \<open>unmount\<close>) and \<open>titleEffect\<close>.
\<close>

record world =
  st :: state
  rteInstance :: "string option"
  autoSaveTimerRef :: "nat option"
  storage :: localStorage
  timers :: "timer list"
  nextTimerId :: nat
  listener :: "closure option"
  alerts :: "string list"

text \<open>
  What a handler reads from the environment when it runs: \<open>Date.now()\<close>,
  \<open>new Date().toLocaleString()\<close> and \<open>new Date().toLocaleTimeString()\<close>.  One handler
  call reads one instant.
\<close>

record clock =
  dateNow :: nat
  localeString :: string
  localeTimeString :: string

datatype error = TypeError | QuotaExceededError

text \<open>
  A handler returns, or an exception leaves it.  The state updates queued before the
  exception are applied all the same, so the world is kept in both cases.
\<close>

datatype outcome = Done world | Threw error world

fun world_of :: "outcome \<Rightarrow> world" where
  "world_of (Done w) = w"
| "world_of (Threw e w) = w"

fun returned :: "outcome \<Rightarrow> bool" where
  "returned (Done w) = True"
| "returned (Threw e w) = False"

subsection \<open>State setters\<close>

definition setBlogs :: "blog list \<Rightarrow> world \<Rightarrow> world" where
  "setBlogs v w = w\<lparr>st := (st w)\<lparr>blogs := v\<rparr>\<rparr>"

definition setCurrentBlogId :: "string option \<Rightarrow> world \<Rightarrow> world" where
  "setCurrentBlogId v w = w\<lparr>st := (st w)\<lparr>currentBlogId := v\<rparr>\<rparr>"

definition setTitle :: "string \<Rightarrow> world \<Rightarrow> world" where
  "setTitle v w = w\<lparr>st := (st w)\<lparr>title := v\<rparr>\<rparr>"

definition setIsSaved :: "bool \<Rightarrow> world \<Rightarrow> world" where
  "setIsSaved v w = w\<lparr>st := (st w)\<lparr>isSaved := v\<rparr>\<rparr>"

definition setLastSaved :: "string option \<Rightarrow> world \<Rightarrow> world" where
  "setLastSaved v w = w\<lparr>st := (st w)\<lparr>lastSaved := v\<rparr>\<rparr>"

definition setWordCount :: "nat \<Rightarrow> world \<Rightarrow> world" where
  "setWordCount v w = w\<lparr>st := (st w)\<lparr>wordCount := v\<rparr>\<rparr>"

definition setCharCount :: "nat \<Rightarrow> world \<Rightarrow> world" where
  "setCharCount v w = w\<lparr>st := (st w)\<lparr>charCount := v\<rparr>\<rparr>"

definition setShowNewBlogForm :: "bool \<Rightarrow> world \<Rightarrow> world" where
  "setShowNewBlogForm v w = w\<lparr>st := (st w)\<lparr>showNewBlogForm := v\<rparr>\<rparr>"

definition setNewBlogTitle :: "string \<Rightarrow> world \<Rightarrow> world" where
  "setNewBlogTitle v w = w\<lparr>st := (st w)\<lparr>newBlogTitle := v\<rparr>\<rparr>"

text \<open>\<open>rteInstance.current.setContent(c)\<close> on a live editor.\<close>

definition setContent :: "string \<Rightarrow> world \<Rightarrow> world" where
  "setContent c w = w\<lparr>rteInstance := Some c\<rparr>"

section \<open>Persistence\<close>

text \<open>\<open>localStorage.setItem\<close> on each of the two keys.\<close>

definition setItem_blogs :: "blog list \<Rightarrow> localStorage \<Rightarrow> error + localStorage" where
  "setItem_blogs v s =
     (if quotaExceeded s then Inl QuotaExceededError else Inr (s\<lparr>editor_blogs := Some v\<rparr>))"

definition setItem_current_blog_id :: "string \<Rightarrow> localStorage \<Rightarrow> error + localStorage" where
  "setItem_current_blog_id v s =
     (if quotaExceeded s then Inl QuotaExceededError
      else Inr (s\<lparr>editor_current_blog_id := Some v\<rparr>))"

text \<open>
  \<^verbatim>\<open>
  const saveBlogs = (updatedBlogs) => {
    try { localStorage.setItem(STORAGE_KEYS.BLOGS, JSON.stringify(updatedBlogs)) }
    catch (error) { console.error('Failed to save blogs:', error) }
  }
  \<close>
  The console is not part of the world.
\<close>

definition saveBlogs :: "blog list \<Rightarrow> world \<Rightarrow> world" where
  "saveBlogs updatedBlogs w =
     (case setItem_blogs updatedBlogs (storage w) of
        Inl e \<Rightarrow> w
      | Inr s \<Rightarrow> w\<lparr>storage := s\<rparr>)"

section \<open>Statistics\<close>

definition updateStats :: "string \<Rightarrow> world \<Rightarrow> world" where
  "updateStats content w = setCharCount (chars content) (setWordCount (words content) w)"

section \<open>Handlers\<close>

text \<open>
  \<open>createNewBlog\<close> (the title is the state cell \<open>newBlogTitle\<close>, filled by the form).
\<close>

definition newBlog :: "clock \<Rightarrow> string \<Rightarrow> blog" where
  "newBlog clk t =
     \<lparr>blog_id = toString (dateNow clk), blog_title = t,
      blog_content = ''<h1>'' @ t @ ''</h1><p>Start writing...</p>'',
      blog_createdAt = localeString clk, blog_lastSaved = localeString clk,
      blog_wordCount = Some 0, blog_charCount = Some 0\<rparr>"

definition createNewBlog :: "clock \<Rightarrow> world \<Rightarrow> world" where
  "createNewBlog clk w =
     (if trim (newBlogTitle (st w)) = [] then w
      else
        let nb = newBlog clk (newBlogTitle (st w));
            updatedBlogs = nb # blogs (st w)
        in setShowNewBlogForm False
             (setNewBlogTitle []
               (saveBlogs updatedBlogs
                 (setTitle (blog_title nb)
                   (setCurrentBlogId (Some (blog_id nb))
                     (setBlogs updatedBlogs w))))))"

text \<open>
  \<open>switchBlog\<close>.  Its first argument is the render whose \<open>blogs\<close> and
  \<open>currentBlogId\<close> the function sees: when \<open>deleteBlog\<close> calls it, that is the render
  before the deletion, because \<open>setBlogs\<close> only queues the new value.  The flush of
  the outgoing document:
  \<^verbatim>\<open>
  return { ...b, content: content, lastSaved: new Date().toLocaleString() }
  \<close>
\<close>

definition flushInto :: "string \<Rightarrow> string \<Rightarrow> clock \<Rightarrow> blog \<Rightarrow> blog" where
  "flushInto cid content clk b =
     (if blog_id b = cid
      then b\<lparr>blog_content := content, blog_lastSaved := localeString clk\<rparr>
      else b)"

definition saveOutgoing :: "state \<Rightarrow> clock \<Rightarrow> world \<Rightarrow> world" where
  "saveOutgoing r clk w =
     (case (currentBlogId r, rteInstance w) of
        (Some cid, Some content) \<Rightarrow>
          if cid \<noteq> [] then saveBlogs (map (flushInto cid content clk) (blogs r)) w else w
      | _ \<Rightarrow> w)"

definition loadBlog :: "string \<Rightarrow> blog \<Rightarrow> world \<Rightarrow> outcome" where
  "loadBlog blogId blog w =
     (let w1 = setCurrentBlogId (Some blogId) w in
      case setItem_current_blog_id blogId (storage w1) of
        Inl e \<Rightarrow> Threw e w1
      | Inr s \<Rightarrow>
          Done (setIsSaved True
                 (updateStats (blog_content blog)
                   (setLastSaved (Some (blog_lastSaved blog))
                     (setContent (blog_content blog)
                       (setTitle (blog_title blog) (w1\<lparr>storage := s\<rparr>)))))))"

definition switchBlog :: "state \<Rightarrow> clock \<Rightarrow> string \<Rightarrow> world \<Rightarrow> outcome" where
  "switchBlog r clk blogId w =
     (let w1 = saveOutgoing r clk w in
      case (find (\<lambda>b. blog_id b = blogId) (blogs r), rteInstance w1) of
        (Some blog, Some c) \<Rightarrow> loadBlog blogId blog w1
      | _ \<Rightarrow> Done w1)"

text \<open>A click on a document of the sidebar: \<open>switchBlog\<close> of the current render.\<close>

definition clickBlog :: "clock \<Rightarrow> string \<Rightarrow> world \<Rightarrow> outcome" where
  "clickBlog clk blogId w = switchBlog (st w) clk blogId w"

text \<open>
  \<open>deleteBlog\<close>.  The answer to \<open>window.confirm\<close> is an input.  \<open>updatedBlogs[0]\<close>
  of an empty list is \<open>undefined\<close>, and reading its \<open>id\<close> throws.
\<close>

definition lastBlogNotice :: string where
  "lastBlogNotice = ''You cannot delete the last blog. Create a new one first.''"

definition deleteBlog :: "clock \<Rightarrow> bool \<Rightarrow> string \<Rightarrow> world \<Rightarrow> outcome" where
  "deleteBlog clk confirmed blogId w =
     (if length (blogs (st w)) = 1 then Done (w\<lparr>alerts := alerts w @ [lastBlogNotice]\<rparr>)
      else if \<not> confirmed then Done w
      else
        let updatedBlogs = filter (\<lambda>b. blog_id b \<noteq> blogId) (blogs (st w));
            w1 = saveBlogs updatedBlogs (setBlogs updatedBlogs w)
        in if currentBlogId (st w) = Some blogId
           then (case updatedBlogs of
                   [] \<Rightarrow> Threw TypeError w1
                 | nextBlog # rest \<Rightarrow> switchBlog (st w) clk (blog_id nextBlog) w1)
           else Done w1)"

text \<open>
  \<open>saveCurrentBlog(content, blogTitle)\<close>; \<open>blogTitle || b.title\<close> takes the document's
  title when the argument is missing or empty.
\<close>

definition saveCurrentBlog :: "string \<Rightarrow> string option \<Rightarrow> clock \<Rightarrow> world \<Rightarrow> world" where
  "saveCurrentBlog content blogTitle clk w =
     (if \<not> truthy (currentBlogId (st w)) then w
      else
        let updatedBlogs =
              map (\<lambda>b. if Some (blog_id b) = currentBlogId (st w)
                        then b\<lparr>blog_title :=
                                 (case blogTitle of
                                    Some t \<Rightarrow> if t \<noteq> [] then t else blog_title b
                                  | None \<Rightarrow> blog_title b),
                               blog_content := content, blog_lastSaved := localeString clk\<rparr>
                        else b)
                  (blogs (st w))
        in setIsSaved True
             (setLastSaved (Some (localeTimeString clk))
               (saveBlogs updatedBlogs (setBlogs updatedBlogs w))))"

section \<open>Autosave\<close>

definition AUTO_SAVE_INTERVAL :: nat where
  "AUTO_SAVE_INTERVAL = 3000"

text \<open>
  \<open>clearTimeout(id)\<close> removes the armed timer of that id, if there is one.  Timer ids
  are positive, so a ref that holds one is truthy.
\<close>

definition clearTimeout :: "nat \<Rightarrow> world \<Rightarrow> world" where
  "clearTimeout i w = w\<lparr>timers := filter (\<lambda>t. timer_id t \<noteq> i) (timers w)\<rparr>"

definition clearAutoSaveTimer :: "world \<Rightarrow> world" where
  "clearAutoSaveTimer w =
     (case autoSaveTimerRef w of
        Some i \<Rightarrow> if i \<noteq> 0 then clearTimeout i w else w
      | None \<Rightarrow> w)"

definition handleContentChange :: "closure \<Rightarrow> clock \<Rightarrow> world \<Rightarrow> world" where
  "handleContentChange cl clk w =
     (let w1 = clearAutoSaveTimer (setIsSaved False w);
          i = nextTimerId w1
      in w1\<lparr>timers := timers w1 @ [\<lparr>timer_id = i, due = dateNow clk + AUTO_SAVE_INTERVAL,
                                     callback = cl\<rparr>],
             autoSaveTimerRef := Some i,
             nextTimerId := Suc i\<rparr>)"

text \<open>
  The callback handed to \<open>setTimeout\<close>:
  \<^verbatim>\<open>
  const content = rteInstance.current.getContent()
  const currentId = currentBlogId || blogs[0]?.id
  if (currentId) { ... setBlogs(updatedBlogs); saveBlogs(updatedBlogs); ... }
  \<close>
  \<open>blogs\<close> and \<open>currentBlogId\<close> are those of the closure.
\<close>

definition autoSaveCurrentId :: "closure \<Rightarrow> string option" where
  "autoSaveCurrentId cl =
     (if truthy (seen_currentBlogId cl) then seen_currentBlogId cl
      else (case seen_blogs cl of [] \<Rightarrow> None | b # bs \<Rightarrow> Some (blog_id b)))"

definition autoSaveTimeout :: "closure \<Rightarrow> clock \<Rightarrow> world \<Rightarrow> outcome" where
  "autoSaveTimeout cl clk w =
     (case rteInstance w of
        None \<Rightarrow> Threw TypeError w
      | Some content \<Rightarrow>
          (case autoSaveCurrentId cl of
             None \<Rightarrow> Done w
           | Some currentId \<Rightarrow>
               if currentId \<noteq> []
               then
                 let updatedBlogs = map (flushInto currentId content clk) (seen_blogs cl)
                 in Done (updateStats content
                           (setIsSaved True
                             (setLastSaved (Some (localeTimeString clk))
                               (saveBlogs updatedBlogs (setBlogs updatedBlogs w)))))
               else Done w))"

text \<open>
  The user changes the editor's content, and the editor element emits \<open>input\<close>: the
  listener, if attached, runs.
\<close>

definition userInput :: "string \<Rightarrow> clock \<Rightarrow> world \<Rightarrow> world" where
  "userInput content clk w =
     (let w1 = (case rteInstance w of None \<Rightarrow> w | Some c \<Rightarrow> setContent content w) in
      case listener w1 of
        None \<Rightarrow> w1
      | Some cl \<Rightarrow> handleContentChange cl clk w1)"

text \<open>
  The runtime reaches the instant of \<open>clk\<close>: the first armed timer that is due leaves
  the armed timers and its callback runs.
\<close>

definition fireTimer :: "clock \<Rightarrow> world \<Rightarrow> outcome" where
  "fireTimer clk w =
     (case find (\<lambda>t. due t \<le> dateNow clk) (timers w) of
        None \<Rightarrow> Done w
      | Some t \<Rightarrow> autoSaveTimeout (callback t) clk (clearTimeout (timer_id t) w))"

section \<open>Effects\<close>

text \<open>\<open>loadBlogs\<close>: the stored collection and the document to show, if any.\<close>

definition loadBlogs :: "world \<Rightarrow> blog option \<times> world" where
  "loadBlogs w =
     (case editor_blogs (storage w) of
        None \<Rightarrow> (None, w)
      | Some blogsList \<Rightarrow>
          let w1 = setBlogs blogsList w;
              blogId = editor_current_blog_id (storage w)
          in if truthy blogId \<and> find (\<lambda>b. Some (blog_id b) = blogId) blogsList \<noteq> None
             then (find (\<lambda>b. Some (blog_id b) = blogId) blogsList, setCurrentBlogId blogId w1)
             else (case blogsList of
                     [] \<Rightarrow> (None, w1)
                   | b # bs \<Rightarrow> (Some b, setCurrentBlogId (Some (blog_id b)) w1)))"

definition firstBlog :: "clock \<Rightarrow> blog" where
  "firstBlog clk =
     \<lparr>blog_id = toString (dateNow clk), blog_title = ''Welcome'',
      blog_content = ''<h1>Welcome to Your Professional Blog Editor</h1><p>Start writing your amazing content here...</p>'',
      blog_createdAt = localeString clk, blog_lastSaved = localeString clk,
      blog_wordCount = None, blog_charCount = None\<rparr>"

text \<open>
  The mount effect (dependency list \<open>[]\<close>): it loads the collection, creates the editor
  if there is none, shows the current document or seeds the first one, and attaches
  \<open>handleContentChange\<close>, which sees the \<open>blogs\<close> and \<open>currentBlogId\<close> of the render the
  effect belongs to.
\<close>

definition mount :: "clock \<Rightarrow> world \<Rightarrow> world" where
  "mount clk w =
     (case loadBlogs w of (currentBlog, w1) \<Rightarrow>
        if rteInstance w1 = None
        then
          let w2 = (case currentBlog of
                      Some b \<Rightarrow>
                        updateStats (blog_content b)
                          (setLastSaved (Some (blog_lastSaved b))
                            (setContent (blog_content b)
                              (setTitle (blog_title b) w1)))
                    | None \<Rightarrow>
                        saveBlogs [firstBlog clk]
                          (setContent (blog_content (firstBlog clk))
                            (setTitle (blog_title (firstBlog clk))
                              (setCurrentBlogId (Some (blog_id (firstBlog clk)))
                                (setBlogs [firstBlog clk] w1)))))
          in w2\<lparr>listener := Some \<lparr>seen_blogs = blogs (st w),
                                   seen_currentBlogId = currentBlogId (st w)\<rparr>\<rparr>
        else w1)"

text \<open>
  The cleanup that the mount effect returns:
  \<^verbatim>\<open>
  editorRef.current?.removeEventListener('input', handleContentChange)
  editorRef.current?.removeEventListener('change', handleContentChange)
  if (autoSaveTimerRef.current) { clearTimeout(autoSaveTimerRef.current) }
  \<close>
  Its first argument says whether \<open>editorRef.current\<close> still holds the element.  When
  the component unmounts, the ref is detached before the cleanup of a \<open>useEffect\<close> runs,
  so the cleanup finds \<open>null\<close> there and removes no listener.
\<close>

definition cleanup :: "bool \<Rightarrow> world \<Rightarrow> world" where
  "cleanup editorRefCurrent w =
     clearAutoSaveTimer (if editorRefCurrent then w\<lparr>listener := None\<rparr> else w)"

definition unmount :: "world \<Rightarrow> world" where
  "unmount w = cleanup False w"

text \<open>
  The effect with the dependencies \<open>[title, currentBlogId, blogs]\<close>: it writes the title
  and the editor's content into the current document.  Its own \<open>setBlogs\<close> hands the
  dependency \<open>blogs\<close> a new array at every run, so while a document is current and the
  editor is live the effect runs again after every render.
\<close>

definition titleEffect :: "clock \<Rightarrow> world \<Rightarrow> world" where
  "titleEffect clk w =
     (case (rteInstance w, currentBlogId (st w)) of
        (Some content, Some cid) \<Rightarrow>
          if cid \<noteq> [] then
            let updatedBlogs =
                  map (\<lambda>b. if blog_id b = cid
                            then b\<lparr>blog_title := title (st w), blog_content := content,
                                   blog_lastSaved := localeString clk\<rparr>
                            else b)
                      (blogs (st w))
            in setLastSaved (Some (localeTimeString clk))
                 (saveBlogs updatedBlogs (setBlogs updatedBlogs w))
          else w
      | _ \<Rightarrow> w)"




text \<open>The world before the first render's effects, on a given storage.\<close>

definition initial_world :: "localStorage \<Rightarrow> world" where
  "initial_world s =
     \<lparr>st = initial_state, rteInstance = None, autoSaveTimerRef = None, storage = s,
      timers = [], nextTimerId = 1, listener = None, alerts = []\<rparr>"

definition empty_storage :: localStorage where
  "empty_storage = \<lparr>editor_blogs = None, editor_current_blog_id = None, quotaExceeded = False\<rparr>"

section \<open>Sequences of operations\<close>

text \<open>
  The operations on the collection as the user issues them: typing a title into the form
  and creating, and deleting (with the answer to the confirmation).  A handler that
  throws leaves the application running on the world it reached.
\<close>

datatype op = Create string clock | Delete string bool clock

fun apply_op :: "op \<Rightarrow> world \<Rightarrow> world" where
  "apply_op (Create t clk) w = createNewBlog clk (setNewBlogTitle t w)"
| "apply_op (Delete blogId confirmed clk) w = world_of (deleteBlog clk confirmed blogId w)"

fun run :: "op list \<Rightarrow> world \<Rightarrow> world" where
  "run [] w = w"
| "run (x # xs) w = run xs (apply_op x w)"

fun create_clocks :: "op list \<Rightarrow> nat list" where
  "create_clocks [] = []"
| "create_clocks (Create t clk # xs) =
     (if trim t = [] then create_clocks xs else dateNow clk # create_clocks xs)"
| "create_clocks (Delete blogId confirmed clk # xs) = create_clocks xs"

definition ids :: "world \<Rightarrow> string list" where
  "ids w = map blog_id (blogs (st w))"

section \<open>Reading decimal digits\<close>

text \<open>The inverse of \<open>toString\<close>, used to show that distinct clock readings give distinct ids.\<close>

fun fromDigits :: "nat \<Rightarrow> string \<Rightarrow> nat" where
  "fromDigits acc [] = acc"
| "fromDigits acc (c # cs) = fromDigits (10 * acc + (of_char c - 48)) cs"

section \<open>Scenarios\<close>

text \<open>Four instants, and the first run on an empty storage, which seeds one document.\<close>

definition clk0 :: clock where
  "clk0 = \<lparr>dateNow = 1000, localeString = ''d0'', localeTimeString = ''t0''\<rparr>"

definition clk1 :: clock where
  "clk1 = \<lparr>dateNow = 2000, localeString = ''d1'', localeTimeString = ''t1''\<rparr>"

definition clk2 :: clock where
  "clk2 = \<lparr>dateNow = 4000, localeString = ''d2'', localeTimeString = ''t2''\<rparr>"

definition clk3 :: clock where
  "clk3 = \<lparr>dateNow = 5000, localeString = ''d3'', localeTimeString = ''t3''\<rparr>"

definition seeded :: world where
  "seeded = mount clk0 (initial_world empty_storage)"

text \<open>
  A session that finds two documents in the storage, the first of them current; the
  editor shows it, and the user then replaces its content by \<open>X\<close>.
\<close>

definition docA :: blog where
  "docA = \<lparr>blog_id = ''101'', blog_title = ''A'', blog_content = ''<p>old</p>'',
            blog_createdAt = ''c'', blog_lastSaved = ''c'',
            blog_wordCount = Some 0, blog_charCount = Some 0\<rparr>"

definition docB :: blog where
  "docB = \<lparr>blog_id = ''102'', blog_title = ''B'', blog_content = ''<p>b</p>'',
            blog_createdAt = ''c'', blog_lastSaved = ''c'',
            blog_wordCount = Some 0, blog_charCount = Some 0\<rparr>"

definition two_stored :: localStorage where
  "two_stored =
     \<lparr>editor_blogs = Some [docA, docB], editor_current_blog_id = Some ''101'',
      quotaExceeded = False\<rparr>"

definition loaded :: world where
  "loaded = mount clk0 (initial_world two_stored)"

definition edited :: world where
  "edited = userInput ''X'' clk1 loaded"

text \<open>
  The render that follows the edit, with its title effect, and then the click on document
  \<open>102\<close>.
\<close>

definition rendered :: world where
  "rendered = titleEffect clk1 edited"

definition switched :: world where
  "switched = world_of (clickBlog clk2 ''102'' rendered)"

text \<open>
  A burst of two change signals, 2000 ms apart, on the loaded session, and the instant
  one quiet period after the second.
\<close>

definition burst :: world where
  "burst = userInput ''XY'' clk2 edited"

definition clk4 :: clock where
  "clk4 = \<lparr>dateNow = 7000, localeString = ''d4'', localeTimeString = ''t4''\<rparr>"

definition fired :: world where
  "fired = world_of (fireTimer clk4 burst)"

text \<open>The edited session on a storage that is full.\<close>

definition full_storage :: world where
  "full_storage = edited\<lparr>storage := (storage edited)\<lparr>quotaExceeded := True\<rparr>\<rparr>"

text \<open>The seeded store after the user creates the document \<open>Notes\<close>.\<close>

definition with_notes :: world where
  "with_notes = apply_op (Create ''Notes'' clk1) seeded"

text \<open>A document created at the clock reading of the seed document.\<close>

definition twins :: world where
  "twins = apply_op (Create ''Twin'' clk0) seeded"

fun is_delete :: "op \<Rightarrow> bool" where
  "is_delete (Create t clk) = False"
| "is_delete (Delete blogId confirmed clk) = True"

section \<open>Proof setup\<close>

declare toString.simps [simp del]

lemmas setters = setBlogs_def setCurrentBlogId_def setTitle_def setIsSaved_def setLastSaved_def
  setWordCount_def setCharCount_def setShowNewBlogForm_def setNewBlogTitle_def setContent_def

section \<open>Statistics: the examples\<close>

lemma words_hi_there: "words ''<h1>Hi there</h1>'' = 2"
  by (simp add: words_def plainText_def trim_def isSpace_def)

lemma chars_hi_there: "chars ''<h1>Hi there</h1>'' = 8"
  by (simp add: chars_def plainText_def trim_def isSpace_def)

lemma stats_empty_paragraph: "words ''<p></p>'' = 0 \<and> chars ''<p></p>'' = 0"
  by (simp add: chars_def words_def plainText_def trim_def isSpace_def)


section \<open>Statistics: the word count is the number of runs\<close>

lemma count_runs_dropWhile:
  "count_runs_from True (dropWhile isSpace cs) = count_runs_from True cs"
  by (induction cs) auto

lemma count_runs_prev:
  "count_runs_from True cs =
     count_runs_from False cs + (if cs \<noteq> [] \<and> \<not> isSpace (hd cs) then 1 else 0)"
  by (cases cs) auto

lemma length_split_ws:
  "s = [] \<or> \<not> isSpace (last s) \<Longrightarrow>
   length (split_ws piece s) =
     count_runs_from True s + (if s \<noteq> [] \<and> \<not> isSpace (hd s) then 0 else 1)"
proof (induction piece s rule: split_ws.induct)
  case (1 piece)
  show ?case by simp
next
  case (2 piece c cs)
  show ?case
  proof (cases "isSpace c")
    case True
    with "2.prems" have ne: "cs \<noteq> []" and lst: "\<not> isSpace (last cs)"
      by (auto split: if_splits)
    let ?d = "dropWhile isSpace cs"
    have dne: "?d \<noteq> []"
      using ne lst by (metis dropWhile_eq_Nil_conv last_in_set)
    have hd_d: "\<not> isSpace (hd ?d)"
      using dne by (simp add: hd_dropWhile)
    have last_d: "last ?d = last cs"
      using dne by (metis takeWhile_dropWhile_id last_appendR)
    have "length (split_ws [] ?d) = count_runs_from True ?d"
      using "2.IH"(1) [OF True] dne hd_d last_d lst by simp
    then show ?thesis
      using True by (simp add: count_runs_dropWhile)
  next
    case False
    have pre: "cs = [] \<or> \<not> isSpace (last cs)"
      using "2.prems" by (auto split: if_splits)
    have "length (split_ws (piece @ [c]) cs) =
            count_runs_from True cs + (if cs \<noteq> [] \<and> \<not> isSpace (hd cs) then 0 else 1)"
      using "2.IH"(2) [OF False pre] .
    then show ?thesis
      using False count_runs_prev [of cs] by simp
  qed
qed

lemma last_dropWhile_keep: "dropWhile P xs \<noteq> [] \<Longrightarrow> last (dropWhile P xs) = last xs"
  by (metis takeWhile_dropWhile_id last_appendR)

lemma trim_last: "trim s \<noteq> [] \<Longrightarrow> \<not> isSpace (last (trim s))"
proof -
  assume ne: "trim s \<noteq> []"
  let ?e = "dropWhile isSpace (rev (dropWhile isSpace s))"
  have e: "?e \<noteq> []" using ne by (simp add: trim_def)
  have "last (trim s) = hd ?e" using e by (simp add: trim_def last_rev)
  moreover have "\<not> isSpace (hd ?e)" using e by (rule hd_dropWhile)
  ultimately show ?thesis by simp
qed

lemma trim_hd: "trim s \<noteq> [] \<Longrightarrow> \<not> isSpace (hd (trim s))"
proof -
  assume ne: "trim s \<noteq> []"
  let ?d = "dropWhile isSpace s"
  let ?e = "dropWhile isSpace (rev ?d)"
  have e: "?e \<noteq> []" using ne by (simp add: trim_def)
  have d: "?d \<noteq> []"
  proof
    assume "?d = []"
    then have "?e = []" by (simp del: dropWhile_eq_Nil_conv)
    with e show False by simp
  qed
  have "hd (trim s) = last ?e" using e by (simp add: trim_def hd_rev)
  also have "\<dots> = last (rev ?d)" using e by (rule last_dropWhile_keep)
  also have "\<dots> = hd ?d" using d by (simp add: last_rev)
  finally have "hd (trim s) = hd ?d" .
  moreover have "\<not> isSpace (hd ?d)" using d by (rule hd_dropWhile)
  ultimately show ?thesis by simp
qed

lemma words_runs: "words content = spec_word_runs (plainText content)"
proof (cases "plainText content = []")
  case True
  then show ?thesis by (simp add: words_def spec_word_runs_def)
next
  case False
  then have ne: "trim (strip_tags content) \<noteq> []" by (simp add: plainText_def)
  have "length (split_ws [] (plainText content)) = count_runs_from True (plainText content)"
    using length_split_ws [of "plainText content" "[]"] trim_hd [OF ne] trim_last [OF ne] False
    by (simp add: plainText_def)
  then show ?thesis using False by (simp add: words_def spec_word_runs_def)
qed

lemma updateStats_eq:
  "updateStats content w =
     w\<lparr>st := (st w)\<lparr>wordCount := words content, charCount := chars content\<rparr>\<rparr>"
  by (simp add: updateStats_def setWordCount_def setCharCount_def)


text \<open>
  Claim C8.  For every content string the statistics function strips the markup tags and
  trims the result; the word count it stores is the number of whitespace-separated runs
  of that trimmed text (zero when the text is empty) and the character count is the
  length of the trimmed text.  In particular \<open><h1>Hi there</h1>\<close> has 2 words and 8
  characters, and \<open><p></p>\<close> has none of either.
\<close>

theorem stats_correct:
  "updateStats content w =
     w\<lparr>st := (st w)\<lparr>wordCount := spec_word_runs (trim (strip_tags content)),
                    charCount := length (trim (strip_tags content))\<rparr>\<rparr>
   \<and> spec_word_runs [] = 0
   \<and> wordCount (st (updateStats ''<h1>Hi there</h1>'' w)) = 2
   \<and> charCount (st (updateStats ''<h1>Hi there</h1>'' w)) = 8
   \<and> wordCount (st (updateStats ''<p></p>'' w)) = 0
   \<and> charCount (st (updateStats ''<p></p>'' w)) = 0"
proof -
  have "updateStats content w =
     w\<lparr>st := (st w)\<lparr>wordCount := spec_word_runs (trim (strip_tags content)),
                    charCount := length (trim (strip_tags content))\<rparr>\<rparr>"
    unfolding updateStats_eq words_runs chars_def plainText_def ..
  moreover have "spec_word_runs [] = 0" by (simp add: spec_word_runs_def)
  moreover have "wordCount (st (updateStats ''<h1>Hi there</h1>'' w)) = 2"
    unfolding updateStats_eq using words_hi_there by simp
  moreover have "charCount (st (updateStats ''<h1>Hi there</h1>'' w)) = 8"
    unfolding updateStats_eq using chars_hi_there by simp
  moreover have "wordCount (st (updateStats ''<p></p>'' w)) = 0"
    unfolding updateStats_eq using stats_empty_paragraph by simp
  moreover have "charCount (st (updateStats ''<p></p>'' w)) = 0"
    unfolding updateStats_eq using stats_empty_paragraph by simp
  ultimately show ?thesis by blast
qed


theorem stats_correct_witness:
  "wordCount (st (updateStats ''<b>a</b>  b c '' (initial_world empty_storage))) = 3
   \<and> charCount (st (updateStats ''<b>a</b>  b c '' (initial_world empty_storage))) = 6"
proof -
  have "spec_word_runs (trim (strip_tags ''<b>a</b>  b c '')) = 3"
    by (simp add: spec_word_runs_def trim_def isSpace_def)
  moreover have "length (trim (strip_tags ''<b>a</b>  b c '')) = 6"
    by (simp add: trim_def isSpace_def)
  ultimately show ?thesis
    using stats_correct [of "''<b>a</b>  b c ''" "initial_world empty_storage"] by simp
qed

section \<open>Concrete sessions\<close>

lemma toString_1000: "toString 1000 = ''1000''"
  by (simp add: toString.simps char_of_eq_iff)

lemma toString_2000: "toString 2000 = ''2000''"
  by (simp add: toString.simps char_of_eq_iff)

lemma seeded_eq:
  "seeded =
     \<lparr>st = \<lparr>blogs = [firstBlog clk0], currentBlogId = Some ''1000'', title = ''Welcome'',
             isSaved = True, lastSaved = None, wordCount = 0, charCount = 0,
             showNewBlogForm = False, newBlogTitle = []\<rparr>,
      rteInstance = Some (blog_content (firstBlog clk0)),
      autoSaveTimerRef = None,
      storage = \<lparr>editor_blogs = Some [firstBlog clk0], editor_current_blog_id = None,
                 quotaExceeded = False\<rparr>,
      timers = [], nextTimerId = 1,
      listener = Some \<lparr>seen_blogs = [], seen_currentBlogId = None\<rparr>, alerts = []\<rparr>"
  by (simp add: seeded_def mount_def loadBlogs_def initial_world_def empty_storage_def
      initial_state_def setters saveBlogs_def setItem_blogs_def firstBlog_def clk0_def toString_1000)

lemma stats_old: "words ''<p>old</p>'' = 1 \<and> chars ''<p>old</p>'' = 3"
  by (simp add: chars_def words_def plainText_def trim_def isSpace_def)

lemma stats_b: "words ''<p>b</p>'' = 1 \<and> chars ''<p>b</p>'' = 1"
  by (simp add: chars_def words_def plainText_def trim_def isSpace_def)

lemma loaded_eq:
  "loaded =
     \<lparr>st = \<lparr>blogs = [docA, docB], currentBlogId = Some ''101'', title = ''A'',
             isSaved = True, lastSaved = Some ''c'', wordCount = 1, charCount = 3,
             showNewBlogForm = False, newBlogTitle = []\<rparr>,
      rteInstance = Some ''<p>old</p>'',
      autoSaveTimerRef = None,
      storage = two_stored,
      timers = [], nextTimerId = 1,
      listener = Some \<lparr>seen_blogs = [], seen_currentBlogId = None\<rparr>, alerts = []\<rparr>"
  by (simp add: loaded_def mount_def loadBlogs_def initial_world_def two_stored_def
      initial_state_def setters updateStats_def stats_old docA_def docB_def)

lemma edited_eq:
  "edited =
     \<lparr>st = \<lparr>blogs = [docA, docB], currentBlogId = Some ''101'', title = ''A'',
             isSaved = False, lastSaved = Some ''c'', wordCount = 1, charCount = 3,
             showNewBlogForm = False, newBlogTitle = []\<rparr>,
      rteInstance = Some ''X'',
      autoSaveTimerRef = Some 1,
      storage = two_stored,
      timers = [\<lparr>timer_id = 1, due = 5000,
                 callback = \<lparr>seen_blogs = [], seen_currentBlogId = None\<rparr>\<rparr>],
      nextTimerId = 2,
      listener = Some \<lparr>seen_blogs = [], seen_currentBlogId = None\<rparr>, alerts = []\<rparr>"
  by (simp add: edited_def loaded_eq userInput_def handleContentChange_def
      clearAutoSaveTimer_def setters clk1_def AUTO_SAVE_INTERVAL_def)

lemma rendered_eq:
  "rendered =
     edited\<lparr>st := (st edited)\<lparr>blogs := [docA\<lparr>blog_content := ''X'', blog_lastSaved := ''d1''\<rparr>,
                                         docB],
                               lastSaved := Some ''t1''\<rparr>,
            storage := \<lparr>editor_blogs =
                          Some [docA\<lparr>blog_content := ''X'', blog_lastSaved := ''d1''\<rparr>, docB],
                        editor_current_blog_id = Some ''101'', quotaExceeded = False\<rparr>\<rparr>"
  by (simp add: rendered_def edited_eq titleEffect_def Let_def saveBlogs_def setItem_blogs_def
      two_stored_def setters docA_def docB_def clk1_def)

lemma switched_eq:
  "switched =
     rendered\<lparr>st := (st rendered)\<lparr>currentBlogId := Some ''102'', title := ''B'',
                                   lastSaved := Some ''c'', wordCount := 1, charCount := 1,
                                   isSaved := True\<rparr>,
              rteInstance := Some ''<p>b</p>'',
              storage := \<lparr>editor_blogs =
                            Some [docA\<lparr>blog_content := ''X'', blog_lastSaved := ''d2''\<rparr>, docB],
                          editor_current_blog_id = Some ''102'', quotaExceeded = False\<rparr>\<rparr>"
  by (simp add: switched_def rendered_eq edited_eq clickBlog_def switchBlog_def saveOutgoing_def
      loadBlog_def flushInto_def saveBlogs_def setItem_blogs_def setItem_current_blog_id_def
      setters updateStats_def stats_b docA_def docB_def clk2_def)

section \<open>Switching documents\<close>

lemma saveOutgoing_frame:
  "st (saveOutgoing r clk w) = st w \<and> rteInstance (saveOutgoing r clk w) = rteInstance w
   \<and> timers (saveOutgoing r clk w) = timers w
   \<and> autoSaveTimerRef (saveOutgoing r clk w) = autoSaveTimerRef w
   \<and> alerts (saveOutgoing r clk w) = alerts w
   \<and> listener (saveOutgoing r clk w) = listener w
   \<and> nextTimerId (saveOutgoing r clk w) = nextTimerId w"
  by (simp add: saveOutgoing_def saveBlogs_def setItem_blogs_def
      split: option.splits sum.splits)

lemma loadBlog_frame:
  "blogs (st (world_of (loadBlog blogId b w))) = blogs (st w)
   \<and> timers (world_of (loadBlog blogId b w)) = timers w
   \<and> autoSaveTimerRef (world_of (loadBlog blogId b w)) = autoSaveTimerRef w"
  by (simp add: loadBlog_def Let_def setItem_current_blog_id_def setters updateStats_def)

lemma switchBlog_frame:
  "blogs (st (world_of (switchBlog r clk blogId w))) = blogs (st w)
   \<and> timers (world_of (switchBlog r clk blogId w)) = timers w
   \<and> autoSaveTimerRef (world_of (switchBlog r clk blogId w)) = autoSaveTimerRef w"
  by (simp add: switchBlog_def Let_def loadBlog_frame saveOutgoing_frame
      split: option.splits)

lemma saveOutgoing_storage:
  "currentBlogId r = Some cid \<Longrightarrow> cid \<noteq> [] \<Longrightarrow> rteInstance w = Some content \<Longrightarrow>
   saveOutgoing r clk w =
     w\<lparr>storage := (if quotaExceeded (storage w) then storage w
                   else (storage w)\<lparr>editor_blogs :=
                          Some (map (flushInto cid content clk) (blogs r))\<rparr>)\<rparr>"
  by (simp add: saveOutgoing_def saveBlogs_def setItem_blogs_def)

text \<open>
  Claim C10: with an active document (a truthy \<open>currentBlogId\<close>) and a live editor, a
  switch to an id that matches no document still writes the collection, the current
  document carrying the editor's content and a new \<open>lastSaved\<close>, to the storage (which
  keeps its value when the write throws), and changes nothing else: not the current id,
  the title, the editor's content, the save flag or the statistics.
\<close>

theorem switch_unknown_id:
  assumes "currentBlogId (st w) = Some cid" and "cid \<noteq> []"
    and "rteInstance w = Some content"
    and "find (\<lambda>b. blog_id b = blogId) (blogs (st w)) = None"
  shows "clickBlog clk blogId w =
           Done (w\<lparr>storage :=
                     (if quotaExceeded (storage w) then storage w
                      else (storage w)\<lparr>editor_blogs :=
                             Some (map (flushInto cid content clk) (blogs (st w)))\<rparr>)\<rparr>)
         \<and> currentBlogId (st (world_of (clickBlog clk blogId w))) = currentBlogId (st w)
         \<and> title (st (world_of (clickBlog clk blogId w))) = title (st w)
         \<and> rteInstance (world_of (clickBlog clk blogId w)) = rteInstance w
         \<and> isSaved (st (world_of (clickBlog clk blogId w))) = isSaved (st w)
         \<and> wordCount (st (world_of (clickBlog clk blogId w))) = wordCount (st w)
         \<and> charCount (st (world_of (clickBlog clk blogId w))) = charCount (st w)"
proof -
  have "clickBlog clk blogId w = Done (saveOutgoing (st w) clk w)"
    using assms(4) by (simp add: clickBlog_def switchBlog_def)
  then show ?thesis
    using saveOutgoing_storage [OF assms(1-3), of clk] by simp
qed

theorem switch_unknown_id_witness:
  "clickBlog clk2 ''999'' edited =
     Done (edited\<lparr>storage :=
             \<lparr>editor_blogs = Some [docA\<lparr>blog_content := ''X'', blog_lastSaved := ''d2''\<rparr>, docB],
              editor_current_blog_id = Some ''101'', quotaExceeded = False\<rparr>\<rparr>)"
proof -
  have 1: "currentBlogId (st edited) = Some ''101''" by (simp add: edited_eq)
  have 2: "''101'' \<noteq> []" by simp
  have 3: "rteInstance edited = Some ''X''" by (simp add: edited_eq)
  have 4: "find (\<lambda>b. blog_id b = ''999'') (blogs (st edited)) = None"
    by (simp add: edited_eq docA_def docB_def)
  show ?thesis
    using switch_unknown_id [OF 1 2 3 4, of clk2]
    by (simp add: edited_eq two_stored_def flushInto_def docA_def docB_def clk2_def)
qed

subsection \<open>A switch away and back\<close>









lemma switchBlog_flush:
  assumes "currentBlogId r = Some cid" and "cid \<noteq> []" and "rteInstance w = Some content"
    and "\<not> quotaExceeded (storage w)"
  shows "editor_blogs (storage (world_of (switchBlog r clk blogId w))) =
           Some (map (flushInto cid content clk) (blogs r))"
proof -
  have so: "saveOutgoing r clk w =
      w\<lparr>storage := (storage w)\<lparr>editor_blogs :=
            Some (map (flushInto cid content clk) (blogs r))\<rparr>\<rparr>"
    using saveOutgoing_storage [OF assms(1-3), of clk] assms(4) by simp
  show ?thesis
    by (simp add: switchBlog_def Let_def so loadBlog_def setItem_current_blog_id_def
        setters updateStats_def assms(4) split: option.splits)
qed




section \<open>Autosave\<close>

lemma mount_listener:
  "listener (mount clk (initial_world s)) =
     Some \<lparr>seen_blogs = [], seen_currentBlogId = None\<rparr>"
  by (simp add: mount_def loadBlogs_def initial_world_def initial_state_def setters Let_def
      updateStats_def saveBlogs_def setItem_blogs_def split: option.splits list.splits sum.splits)

lemma stale_callback:
  "autoSaveTimeout \<lparr>seen_blogs = [], seen_currentBlogId = None\<rparr> clk w =
     (case rteInstance w of None \<Rightarrow> Threw TypeError w | Some content \<Rightarrow> Done w)"
  by (simp add: autoSaveTimeout_def autoSaveCurrentId_def split: option.splits)

lemma burst_eq:
  "burst =
     edited\<lparr>rteInstance := Some ''XY'', autoSaveTimerRef := Some 2,
            timers := [\<lparr>timer_id = 2, due = 7000,
                        callback = \<lparr>seen_blogs = [], seen_currentBlogId = None\<rparr>\<rparr>],
            nextTimerId := 3\<rparr>"
  by (simp add: burst_def edited_eq userInput_def handleContentChange_def
      clearAutoSaveTimer_def clearTimeout_def setters clk2_def AUTO_SAVE_INTERVAL_def)

lemma fired_eq: "fireTimer clk4 burst = Done (burst\<lparr>timers := []\<rparr>)"
  by (simp add: burst_eq edited_eq fireTimer_def clearTimeout_def stale_callback clk4_def)

text \<open>
  Claim C5: a burst of change signals, each within the quiet period of the one before,
  should end in exactly one commit of the editor's content to the collection and to the
  storage, one quiet period after the last signal.  Each signal does cancel the timer
  armed before it and arms one for 3000 ms later.  But the callback is the one created
  by the mount effect: the \<open>blogs\<close> and \<open>currentBlogId\<close> it sees are the empty list and
  \<open>null\<close> of the first render, its \<open>currentId\<close> is \<open>undefined\<close>, and it commits
  nothing.  In the session with signals at 2000 and 4000, the one armed timer is due at
  7000; when it fires, the collection and the storage are as they were after loading,
  the editor holds \<open>XY\<close>, and the save flag stays false.
\<close>

theorem autosave_burst_commits_nothing:
  "listener (mount clk (initial_world s)) = Some \<lparr>seen_blogs = [], seen_currentBlogId = None\<rparr>
   \<and> world_of (autoSaveTimeout \<lparr>seen_blogs = [], seen_currentBlogId = None\<rparr> clk w) = w
   \<and> map due (timers edited) = [5000]
   \<and> map due (timers burst) = [7000]
   \<and> fireTimer clk4 burst = Done fired
   \<and> timers fired = []
   \<and> rteInstance fired = Some ''XY''
   \<and> blogs (st fired) = blogs (st loaded)
   \<and> map blog_content (blogs (st fired)) = [''<p>old</p>'', ''<p>b</p>'']
   \<and> storage fired = storage loaded
   \<and> isSaved (st fired) = False"
proof -
  have cb: "world_of (autoSaveTimeout \<lparr>seen_blogs = [], seen_currentBlogId = None\<rparr> clk w) = w"
    by (simp add: stale_callback split: option.splits)
  have f: "fired = burst\<lparr>timers := []\<rparr>"
    by (simp add: fired_def fired_eq)
  have fire: "fireTimer clk4 burst = Done fired"
    unfolding f by (rule fired_eq)
  have dues: "map due (timers edited) = [5000] \<and> map due (timers burst) = [7000]"
    by (simp add: burst_eq edited_eq)
  have after: "timers fired = [] \<and> rteInstance fired = Some ''XY''
      \<and> blogs (st fired) = blogs (st loaded)
      \<and> map blog_content (blogs (st fired)) = [''<p>old</p>'', ''<p>b</p>'']
      \<and> storage fired = storage loaded \<and> isSaved (st fired) = False"
    by (simp add: f burst_eq edited_eq loaded_eq docA_def docB_def)
  show ?thesis
    using cb fire dues after mount_listener [of clk s] by blast
qed

section \<open>Storage failure\<close>

lemma saveBlogs_quota:
  "quotaExceeded (storage w) \<Longrightarrow>
   setItem_blogs bs (storage w) = Inl QuotaExceededError \<and> saveBlogs bs w = w"
  by (simp add: saveBlogs_def setItem_blogs_def)

lemma full_storage_facts:
  "isSaved (st full_storage) = False \<and> quotaExceeded (storage full_storage)
   \<and> currentBlogId (st full_storage) = Some ''101''
   \<and> blogs (st full_storage) = [docA, docB]
   \<and> storage full_storage = two_stored\<lparr>quotaExceeded := True\<rparr>"
  by (simp add: full_storage_def edited_eq)

text \<open>
  Claim C7 as stated says that after a save whose write throws the save flag stays false.
  On a full storage \<open>saveCurrentBlog\<close> sets the flag to true, the storage still holding
  the collection without the content just saved.
\<close>

theorem failed_write_marks_saved_cex:
  "quotaExceeded (storage full_storage)
   \<and> isSaved (st full_storage) = False
   \<and> isSaved (st (saveCurrentBlog ''X'' None clk2 full_storage)) = True
   \<and> storage (saveCurrentBlog ''X'' None clk2 full_storage) = storage full_storage
   \<and> map_option (map blog_content) (editor_blogs (storage full_storage)) =
       Some [''<p>old</p>'', ''<p>b</p>'']"
  by (simp add: full_storage_facts saveCurrentBlog_def Let_def setters saveBlogs_def
      setItem_blogs_def two_stored_def docA_def docB_def)

text \<open>
  Claim C7, amended: when the write to the storage throws, \<open>saveBlogs\<close> catches the
  exception and returns with the world as it was, and \<open>saveCurrentBlog\<close> on an active
  document returns with the collection in memory carrying the update, the storage
  unchanged, and the save flag set to true all the same.
\<close>

theorem saveCurrentBlog_quota:
  assumes "truthy (currentBlogId (st w))" and "quotaExceeded (storage w)"
  shows "setItem_blogs bs (storage w) = Inl QuotaExceededError
         \<and> saveBlogs bs w = w
         \<and> saveCurrentBlog content blogTitle clk w =
             w\<lparr>st := (st w)\<lparr>blogs :=
                   map (\<lambda>b. if Some (blog_id b) = currentBlogId (st w)
                             then b\<lparr>blog_title :=
                                      (case blogTitle of
                                         Some t \<Rightarrow> if t \<noteq> [] then t else blog_title b
                                       | None \<Rightarrow> blog_title b),
                                    blog_content := content,
                                    blog_lastSaved := localeString clk\<rparr>
                             else b)
                       (blogs (st w)),
                   lastSaved := Some (localeTimeString clk),
                   isSaved := True\<rparr>\<rparr>"
  using assms
  by (simp add: saveCurrentBlog_def Let_def setters saveBlogs_def setItem_blogs_def)

theorem saveCurrentBlog_quota_witness:
  "map blog_content (blogs (st (saveCurrentBlog ''X'' None clk2 full_storage))) =
     [''X'', ''<p>b</p>'']
   \<and> isSaved (st (saveCurrentBlog ''X'' None clk2 full_storage))
   \<and> saveBlogs [] full_storage = full_storage"
proof -
  have 1: "truthy (currentBlogId (st full_storage))" by (simp add: full_storage_facts)
  have 2: "quotaExceeded (storage full_storage)" by (simp add: full_storage_facts)
  show ?thesis
    using saveCurrentBlog_quota [OF 1 2, of "[]" "''X''" None clk2]
    by (simp add: full_storage_facts docA_def docB_def)
qed

section \<open>Timers at a switch and at unmount\<close>

lemma cleanup_eq:
  "autoSaveTimerRef w = Some i \<Longrightarrow> i \<noteq> 0 \<Longrightarrow>
   cleanup e w =
     w\<lparr>listener := (if e then None else listener w),
       timers := filter (\<lambda>t. timer_id t \<noteq> i) (timers w)\<rparr>"
  by (simp add: cleanup_def clearAutoSaveTimer_def clearTimeout_def)

lemma cleanup_frame:
  "st (cleanup e w) = st w \<and> storage (cleanup e w) = storage w
   \<and> rteInstance (cleanup e w) = rteInstance w"
  by (simp add: cleanup_def clearAutoSaveTimer_def clearTimeout_def split: option.splits)

text \<open>
  Claim C6 as stated says that a document switch cancels the pending autosave timer, so
  that the timer never fires after the switch.  In the session where the edit armed
  timer \<open>1\<close> for the instant 5000 and the render followed, the switch at 4000 leaves
  that timer armed and the timer ref as it was, and at 5000 the timer fires.
\<close>

theorem switch_keeps_timer_cex:
  "map timer_id (timers rendered) = [1]
   \<and> map due (timers rendered) = [5000]
   \<and> dateNow clk2 = 4000
   \<and> timers switched = timers rendered
   \<and> autoSaveTimerRef switched = Some 1
   \<and> dateNow clk3 = 5000
   \<and> timers (world_of (fireTimer clk3 switched)) = []"
  by (simp add: switched_eq rendered_eq edited_eq fireTimer_def clearTimeout_def stale_callback
      clk2_def clk3_def)

text \<open>
  Claim C6, amended: a document switch flushes the editor's content of an active document
  to the storage (when the storage takes the write) and leaves the armed timers and the
  timer ref as they are, so a pending timer stays pending.  The cleanup of the session,
  at unmount, clears the timer held in the timer ref; it writes nothing, neither to the
  collection nor to the storage.
\<close>

theorem switch_unmount_timer:
  "timers (world_of (switchBlog r clk blogId w)) = timers w
   \<and> autoSaveTimerRef (world_of (switchBlog r clk blogId w)) = autoSaveTimerRef w
   \<and> (currentBlogId r = Some cid \<and> cid \<noteq> [] \<and> rteInstance w = Some content
        \<and> \<not> quotaExceeded (storage w) \<longrightarrow>
      editor_blogs (storage (world_of (switchBlog r clk blogId w))) =
        Some (map (flushInto cid content clk) (blogs r)))
   \<and> (autoSaveTimerRef w = Some i \<and> i \<noteq> 0 \<longrightarrow>
      timers (cleanup e w) = filter (\<lambda>t. timer_id t \<noteq> i) (timers w)
      \<and> i \<notin> set (map timer_id (timers (cleanup e w)))
      \<and> timers (unmount w) = filter (\<lambda>t. timer_id t \<noteq> i) (timers w)
      \<and> i \<notin> set (map timer_id (timers (unmount w))))
   \<and> st (cleanup e w) = st w \<and> storage (cleanup e w) = storage w
   \<and> rteInstance (cleanup e w) = rteInstance w
   \<and> st (unmount w) = st w \<and> storage (unmount w) = storage w
   \<and> rteInstance (unmount w) = rteInstance w"
proof -
  have flush: "editor_blogs (storage (world_of (switchBlog r clk blogId w))) =
        Some (map (flushInto cid content clk) (blogs r))"
    if "currentBlogId r = Some cid" "cid \<noteq> []" "rteInstance w = Some content"
      "\<not> quotaExceeded (storage w)"
    using switchBlog_flush [OF that] .
  have cl: "timers (cleanup e' w) = filter (\<lambda>t. timer_id t \<noteq> i) (timers w)
      \<and> i \<notin> set (map timer_id (timers (cleanup e' w)))"
    if "autoSaveTimerRef w = Some i" "i \<noteq> 0" for e'
    using cleanup_eq [OF that, of e'] by auto
  have fr: "st (cleanup e' w) = st w \<and> storage (cleanup e' w) = storage w
      \<and> rteInstance (cleanup e' w) = rteInstance w" for e'
    by (rule cleanup_frame)
  show ?thesis
    unfolding unmount_def
    using flush cl [of e] cl [of False] fr [of e] fr [of False]
      switchBlog_frame [of r clk blogId w]
    by blast
qed

theorem switch_unmount_timer_witness:
  "timers switched = timers rendered
   \<and> editor_blogs (storage switched) =
       Some [docA\<lparr>blog_content := ''X'', blog_lastSaved := ''d2''\<rparr>, docB]
   \<and> timers (unmount rendered) = []
   \<and> storage (unmount rendered) = storage rendered"
proof -
  have 1: "currentBlogId (st rendered) = Some ''101'' \<and> ''101'' \<noteq> []
      \<and> rteInstance rendered = Some ''X'' \<and> \<not> quotaExceeded (storage rendered)"
    by (simp add: rendered_eq edited_eq)
  have 2: "autoSaveTimerRef rendered = Some 1 \<and> (1::nat) \<noteq> 0"
    by (simp add: rendered_eq edited_eq)
  have 3: "switched = world_of (switchBlog (st rendered) clk2 ''102'' rendered)"
    by (simp add: switched_def clickBlog_def)
  have 4: "map (flushInto ''101'' ''X'' clk2) (blogs (st rendered)) =
      [docA\<lparr>blog_content := ''X'', blog_lastSaved := ''d2''\<rparr>, docB]"
    by (simp add: rendered_eq edited_eq flushInto_def docA_def docB_def clk2_def)
  have 5: "filter (\<lambda>t. timer_id t \<noteq> 1) (timers rendered) = []"
    by (simp add: rendered_eq edited_eq)
  show ?thesis
    using switch_unmount_timer
      [of "st rendered" clk2 "''102''" rendered "''101''" "''X''" 1 False] 1 2
    unfolding 3 4 5 by simp
qed

section \<open>Deleting a document\<close>

lemma saveBlogs_frame:
  "st (saveBlogs bs w) = st w \<and> rteInstance (saveBlogs bs w) = rteInstance w
   \<and> alerts (saveBlogs bs w) = alerts w"
  by (simp add: saveBlogs_def setItem_blogs_def)

lemma deleteBlog_blogs:
  "blogs (st (world_of (deleteBlog clk confirmed blogId w))) =
     (if length (blogs (st w)) = 1 \<or> \<not> confirmed then blogs (st w)
      else filter (\<lambda>b. blog_id b \<noteq> blogId) (blogs (st w)))"
  by (simp add: deleteBlog_def Let_def switchBlog_frame saveBlogs_frame setters
      split: list.splits)

lemma find_first_kept:
  "filter (\<lambda>b. f b \<noteq> k) xs = y # ys \<Longrightarrow> find (\<lambda>b. f b = f y) xs = Some y"
proof (induction xs)
  case Nil
  then show ?case by simp
next
  case (Cons x xs)
  show ?case
  proof (cases "f x = k")
    case True
    with Cons.prems have "filter (\<lambda>b. f b \<noteq> k) xs = y # ys" by simp
    moreover from this have "y \<in> set (filter (\<lambda>b. f b \<noteq> k) xs)" by simp
    then have "f y \<noteq> k" by simp
    ultimately show ?thesis using True Cons.IH by auto
  next
    case False
    with Cons.prems have "x = y" by simp
    then show ?thesis by simp
  qed
qed

lemma deleteBlog_active:
  assumes cur: "currentBlogId (st w) = Some blogId"
    and len: "length (blogs (st w)) \<noteq> 1"
    and rte: "rteInstance w = Some c"
    and quota: "\<not> quotaExceeded (storage w)"
    and flt: "filter (\<lambda>b. blog_id b \<noteq> blogId) (blogs (st w)) = nb # rest"
  shows "deleteBlog clk True blogId w =
     Done (w\<lparr>st := (st w)\<lparr>blogs := nb # rest, currentBlogId := Some (blog_id nb),
                          title := blog_title nb, lastSaved := Some (blog_lastSaved nb),
                          wordCount := words (blog_content nb),
                          charCount := chars (blog_content nb), isSaved := True\<rparr>,
             rteInstance := Some (blog_content nb),
             storage := (storage w)\<lparr>editor_blogs :=
                           (if blogId = [] then Some (nb # rest)
                            else Some (map (flushInto blogId c clk) (blogs (st w)))),
                         editor_current_blog_id := Some (blog_id nb)\<rparr>\<rparr>)"
proof -
  have fnd: "find (\<lambda>b. blog_id b = blog_id nb) (blogs (st w)) = Some nb"
    using find_first_kept [OF flt] .
  show ?thesis
    using cur len rte quota flt fnd
    by (simp add: deleteBlog_def Let_def switchBlog_def saveOutgoing_def loadBlog_def
        saveBlogs_def setItem_blogs_def setItem_current_blog_id_def setters updateStats_def)
qed

text \<open>
  Claim C2 as stated says that the deleted document leaves the persistent storage too,
  and that \<open>delete(id)\<close> removes the document.  When the active document \<open>101\<close> of the
  edited session is deleted, the collection in memory loses it, but the flush of the
  switch that follows writes the collection of the render before the deletion, so the
  storage still holds document \<open>101\<close>; and when the user declines the confirmation,
  nothing is deleted.
\<close>

theorem delete_active_stays_stored_cex:
  "length (blogs (st edited)) = 2
   \<and> currentBlogId (st edited) = Some ''101''
   \<and> map blog_id (blogs (st (world_of (deleteBlog clk2 True ''101'' edited)))) = [''102'']
   \<and> map_option (map blog_id)
        (editor_blogs (storage (world_of (deleteBlog clk2 True ''101'' edited)))) =
       Some [''101'', ''102'']
   \<and> deleteBlog clk2 False ''101'' edited = Done edited"
proof -
  have 1: "currentBlogId (st edited) = Some ''101''" "length (blogs (st edited)) \<noteq> 1"
    "rteInstance edited = Some ''X''" "\<not> quotaExceeded (storage edited)"
    "filter (\<lambda>b. blog_id b \<noteq> ''101'') (blogs (st edited)) = docB # []"
    by (simp_all add: edited_eq two_stored_def docA_def docB_def)
  have 2: "deleteBlog clk2 False ''101'' edited = Done edited"
    by (simp add: deleteBlog_def edited_eq)
  show ?thesis
    using deleteBlog_active [OF 1, of clk2] 2
    by (simp add: edited_eq flushInto_def docA_def docB_def)
qed

text \<open>
  Claim C2, amended: for a collection of more than one document, \<open>deleteBlog\<close> changes
  nothing when the user declines the confirmation; when the user confirms, it removes
  the documents of the given id from the collection in memory.  If the deleted document
  was not the active one, nothing else changes but the storage, which receives the
  remaining collection (when it takes the write).  If it was the active one, the editor
  is live, the storage takes writes and a document remains, the handler returns with the
  first remaining document active: its id is the current id in memory and in the
  storage, and its title, stored content, \<open>lastSaved\<close> and statistics are loaded, with
  the save flag set.
\<close>

theorem deleteBlog_spec:
  assumes "1 < length (blogs (st w))"
  shows "deleteBlog clk False blogId w = Done w
    \<and> blogs (st (world_of (deleteBlog clk True blogId w))) =
        filter (\<lambda>b. blog_id b \<noteq> blogId) (blogs (st w))
    \<and> (currentBlogId (st w) \<noteq> Some blogId \<longrightarrow>
        deleteBlog clk True blogId w =
          Done (w\<lparr>st := (st w)\<lparr>blogs := filter (\<lambda>b. blog_id b \<noteq> blogId) (blogs (st w))\<rparr>,
                  storage := (if quotaExceeded (storage w) then storage w
                              else (storage w)\<lparr>editor_blogs :=
                                Some (filter (\<lambda>b. blog_id b \<noteq> blogId) (blogs (st w)))\<rparr>)\<rparr>))
    \<and> (currentBlogId (st w) = Some blogId \<and> rteInstance w = Some c
          \<and> \<not> quotaExceeded (storage w)
          \<and> filter (\<lambda>b. blog_id b \<noteq> blogId) (blogs (st w)) = nb # rest \<longrightarrow>
        returned (deleteBlog clk True blogId w)
        \<and> st (world_of (deleteBlog clk True blogId w)) =
            (st w)\<lparr>blogs := nb # rest, currentBlogId := Some (blog_id nb),
                    title := blog_title nb, lastSaved := Some (blog_lastSaved nb),
                    wordCount := words (blog_content nb),
                    charCount := chars (blog_content nb), isSaved := True\<rparr>
        \<and> rteInstance (world_of (deleteBlog clk True blogId w)) = Some (blog_content nb)
        \<and> editor_current_blog_id (storage (world_of (deleteBlog clk True blogId w))) =
            Some (blog_id nb))"
proof -
  have len: "length (blogs (st w)) \<noteq> 1" using assms by simp
  have a: "deleteBlog clk False blogId w = Done w"
    using len by (simp add: deleteBlog_def)
  have b: "blogs (st (world_of (deleteBlog clk True blogId w))) =
        filter (\<lambda>b. blog_id b \<noteq> blogId) (blogs (st w))"
    using len by (simp add: deleteBlog_blogs)
  have c: "deleteBlog clk True blogId w =
          Done (w\<lparr>st := (st w)\<lparr>blogs := filter (\<lambda>b. blog_id b \<noteq> blogId) (blogs (st w))\<rparr>,
                  storage := (if quotaExceeded (storage w) then storage w
                              else (storage w)\<lparr>editor_blogs :=
                                Some (filter (\<lambda>b. blog_id b \<noteq> blogId) (blogs (st w)))\<rparr>)\<rparr>)"
    if "currentBlogId (st w) \<noteq> Some blogId"
    using that len by (simp add: deleteBlog_def Let_def saveBlogs_def setItem_blogs_def setters)
  have d: "returned (deleteBlog clk True blogId w)
        \<and> st (world_of (deleteBlog clk True blogId w)) =
            (st w)\<lparr>blogs := nb # rest, currentBlogId := Some (blog_id nb),
                    title := blog_title nb, lastSaved := Some (blog_lastSaved nb),
                    wordCount := words (blog_content nb),
                    charCount := chars (blog_content nb), isSaved := True\<rparr>
        \<and> rteInstance (world_of (deleteBlog clk True blogId w)) = Some (blog_content nb)
        \<and> editor_current_blog_id (storage (world_of (deleteBlog clk True blogId w))) =
            Some (blog_id nb)"
    if "currentBlogId (st w) = Some blogId" "rteInstance w = Some c"
      "\<not> quotaExceeded (storage w)"
      "filter (\<lambda>b. blog_id b \<noteq> blogId) (blogs (st w)) = nb # rest"
    using deleteBlog_active [OF that(1) len that(2-4), of clk] by simp
  show ?thesis using a b c d by blast
qed

theorem deleteBlog_spec_witness:
  "deleteBlog clk2 False ''102'' edited = Done edited
   \<and> blogs (st (world_of (deleteBlog clk2 True ''102'' edited))) = [docA]
   \<and> editor_blogs (storage (world_of (deleteBlog clk2 True ''102'' edited))) = Some [docA]
   \<and> blogs (st (world_of (deleteBlog clk2 True ''101'' edited))) = [docB]
   \<and> currentBlogId (st (world_of (deleteBlog clk2 True ''101'' edited))) = Some ''102''
   \<and> rteInstance (world_of (deleteBlog clk2 True ''101'' edited)) = Some ''<p>b</p>''"
proof -
  have len: "1 < length (blogs (st edited))" by (simp add: edited_eq)
  have 1: "currentBlogId (st edited) \<noteq> Some ''102''" by (simp add: edited_eq)
  have 2: "currentBlogId (st edited) = Some ''101'' \<and> rteInstance edited = Some ''X''
      \<and> \<not> quotaExceeded (storage edited)
      \<and> filter (\<lambda>b. blog_id b \<noteq> ''101'') (blogs (st edited)) = docB # []"
    by (simp add: edited_eq two_stored_def docA_def docB_def)
  have 3: "filter (\<lambda>b. blog_id b \<noteq> ''102'') (blogs (st edited)) = [docA]
      \<and> \<not> quotaExceeded (storage edited)"
    by (simp add: edited_eq two_stored_def docA_def docB_def)
  show ?thesis
    using deleteBlog_spec [OF len, of clk2 "''102''" "''X''" docB "[]"]
      deleteBlog_spec [OF len, of clk2 "''101''" "''X''" docB "[]"] 1 2 3
    by (simp add: docB_def)
qed

section \<open>Invariants of the collection\<close>

lemma of_char_digit: "d < 10 \<Longrightarrow> (of_char (char_of (48 + d :: nat)) :: nat) = 48 + d"
  by (simp add: of_char_of)

lemma fromDigits_append: "fromDigits acc (xs @ ys) = fromDigits (fromDigits acc xs) ys"
  by (induction xs arbitrary: acc) auto

lemma fromDigits_toString: "fromDigits 0 (toString n) = n"
proof (induction n rule: toString.induct)
  case (1 n)
  show ?case
  proof (cases "n < 10")
    case True
    then show ?thesis by (subst toString.simps) (simp add: of_char_of)
  next
    case False
    have m: "n mod 10 < 10" by simp
    have "fromDigits 0 (toString n) =
            fromDigits (fromDigits 0 (toString (n div 10))) [char_of (48 + n mod 10)]"
      using False by (subst toString.simps) (simp add: fromDigits_append)
    also have "\<dots> = 10 * (n div 10) + n mod 10"
      using "1.IH" [OF False] of_char_digit [OF m] by simp
    finally show ?thesis by simp
  qed
qed

lemma toString_inj: "toString m = toString n \<Longrightarrow> m = n"
  by (metis fromDigits_toString)

lemma ids_setNewBlogTitle: "ids (setNewBlogTitle t w) = ids w"
  by (simp add: ids_def setters)

lemma ids_create:
  "ids (createNewBlog clk (setNewBlogTitle t w)) =
     (if trim t = [] then ids w else toString (dateNow clk) # ids w)"
  by (simp add: ids_def createNewBlog_def Let_def setters saveBlogs_def setItem_blogs_def
      newBlog_def)

lemma ids_delete:
  "ids (world_of (deleteBlog clk confirmed blogId w)) =
     (if length (blogs (st w)) = 1 \<or> \<not> confirmed then ids w
      else filter (\<lambda>i. i \<noteq> blogId) (ids w))"
  by (simp add: ids_def deleteBlog_blogs filter_map comp_def)

lemma filter_distinct_nonempty:
  assumes "distinct xs" and "2 \<le> length xs"
  shows "filter (\<lambda>i. i \<noteq> k) xs \<noteq> []"
proof (cases xs)
  case Nil
  with assms show ?thesis by simp
next
  case (Cons x ys)
  show ?thesis
  proof (cases ys)
    case Nil
    with Cons assms show ?thesis by simp
  next
    case (Cons y zs)
    with \<open>xs = x # ys\<close> assms(1) have "x \<noteq> y" by auto
    then have "x \<noteq> k \<or> y \<noteq> k" by auto
    then show ?thesis using Cons \<open>xs = x # ys\<close> by auto
  qed
qed

lemma delete_keeps_invariant:
  assumes "ids w \<noteq> []" and "distinct (ids w)"
  shows "ids (apply_op (Delete blogId confirmed clk) w) \<noteq> []
         \<and> distinct (ids (apply_op (Delete blogId confirmed clk) w))"
proof (cases "length (blogs (st w)) = 1 \<or> \<not> confirmed")
  case True
  then show ?thesis using assms by (simp add: ids_delete)
next
  case False
  then have "length (ids w) \<noteq> 1" by (simp add: ids_def)
  with assms(1) have "2 \<le> length (ids w)"
    by (cases "ids w") (auto simp: Suc_le_eq)
  then have "filter (\<lambda>i. i \<noteq> blogId) (ids w) \<noteq> []"
    using filter_distinct_nonempty [OF assms(2)] by simp
  then show ?thesis using False assms(2) by (simp add: ids_delete)
qed

lemma deletes_keep_invariant:
  "ids w \<noteq> [] \<Longrightarrow> distinct (ids w) \<Longrightarrow> list_all is_delete ops \<Longrightarrow>
   ids (run ops w) \<noteq> [] \<and> distinct (ids (run ops w))"
proof (induction ops arbitrary: w)
  case Nil
  then show ?case by simp
next
  case (Cons x xs)
  from Cons.prems(3) obtain blogId confirmed clk where x: "x = Delete blogId confirmed clk"
    by (cases x) auto
  have "ids (apply_op x w) \<noteq> [] \<and> distinct (ids (apply_op x w))"
    unfolding x using delete_keeps_invariant [OF Cons.prems(1,2)] by simp
  then show ?case using Cons.IH [of "apply_op x w"] Cons.prems(3) by simp
qed

lemma twins_eq:
  "twins =
     seeded\<lparr>st := (st seeded)\<lparr>blogs := [newBlog clk0 ''Twin'', firstBlog clk0],
                               currentBlogId := Some ''1000'', title := ''Twin''\<rparr>,
            storage := (storage seeded)\<lparr>editor_blogs :=
                          Some [newBlog clk0 ''Twin'', firstBlog clk0]\<rparr>\<rparr>"
  by (simp add: twins_def seeded_eq createNewBlog_def Let_def setters saveBlogs_def
      setItem_blogs_def newBlog_def trim_def isSpace_def clk0_def toString_1000)

text \<open>
  Claim C3 as stated holds of every non-empty collection.  A collection whose two
  documents carry the same id (the second was created at the clock reading of the seed
  document) is emptied by one confirmed delete of that id, since \<open>deleteBlog\<close> filters
  by id; the handler then throws on the missing next document.
\<close>

theorem delete_twins_empties_cex:
  "map blog_id (blogs (st twins)) = [''1000'', ''1000'']
   \<and> deleteBlog clk1 True ''1000'' twins =
       Threw TypeError (run [Delete ''1000'' True clk1] twins)
   \<and> blogs (st (run [Delete ''1000'' True clk1] twins)) = []
   \<and> editor_blogs (storage (run [Delete ''1000'' True clk1] twins)) = Some []"
  by (simp add: twins_eq seeded_eq deleteBlog_def Let_def setters saveBlogs_def
      setItem_blogs_def newBlog_def firstBlog_def clk0_def toString_1000)

text \<open>
  Claim C3, amended: starting from a non-empty collection whose ids are pairwise
  distinct, the collection is non-empty (and its ids are still distinct) after every
  prefix of every sequence of delete operations; and deleting when exactly one document
  remains returns with the world unchanged except for the notice shown to the user.
\<close>

theorem deletes_keep_nonempty:
  assumes "blogs (st w) \<noteq> []" and "distinct (ids w)" and "list_all is_delete ops"
  shows "blogs (st (run (take k ops) w)) \<noteq> []
    \<and> distinct (ids (run (take k ops) w))
    \<and> (length (blogs (st w)) = 1 \<longrightarrow>
         deleteBlog clk confirmed blogId w = Done (w\<lparr>alerts := alerts w @ [lastBlogNotice]\<rparr>))"
proof -
  have ne: "ids w \<noteq> []" using assms(1) by (simp add: ids_def)
  have "list_all is_delete (take k ops)"
    using assms(3) by (auto simp: list_all_iff dest: in_set_takeD)
  from deletes_keep_invariant [OF ne assms(2) this]
  have "blogs (st (run (take k ops) w)) \<noteq> [] \<and> distinct (ids (run (take k ops) w))"
    by (simp add: ids_def)
  then show ?thesis by (simp add: deleteBlog_def)
qed

theorem deletes_keep_nonempty_witness:
  "blogs (st (run (take 2 [Delete ''101'' True clk2, Delete ''102'' True clk3]) edited)) \<noteq> []
   \<and> deleteBlog clk1 True ''1000'' seeded =
       Done (seeded\<lparr>alerts := [lastBlogNotice]\<rparr>)"
proof -
  have 1: "blogs (st edited) \<noteq> []" "distinct (ids edited)"
    "list_all is_delete [Delete ''101'' True clk2, Delete ''102'' True clk3]"
    by (simp_all add: edited_eq ids_def docA_def docB_def)
  have 2: "blogs (st seeded) \<noteq> []" "distinct (ids seeded)" "list_all is_delete []"
    "length (blogs (st seeded)) = 1" "alerts seeded = []"
    by (simp_all add: seeded_eq ids_def)
  show ?thesis
    using deletes_keep_nonempty [OF 1, of 2 clk2 True "''101''"]
      deletes_keep_nonempty [OF 2(1-3), of 0 clk1 True "''1000''"] 2(4,5)
    by simp
qed


lemma create_clocks_take:
  "\<exists>ys. create_clocks ops = create_clocks (take k ops) @ ys"
proof (induction ops arbitrary: k)
  case Nil
  show ?case by simp
next
  case (Cons x xs)
  show ?case
  proof (cases k)
    case 0
    then show ?thesis by simp
  next
    case (Suc j)
    from Cons.IH [of j] obtain ys where "create_clocks xs = create_clocks (take j xs) @ ys" ..
    then show ?thesis using Suc by (cases x) auto
  qed
qed

lemma run_keeps_distinct:
  "distinct (ids w) \<Longrightarrow> distinct (create_clocks ops) \<Longrightarrow>
   (\<forall>n\<in>set (create_clocks ops). toString n \<notin> set (ids w)) \<Longrightarrow>
   distinct (ids (run ops w))"
proof (induction ops arbitrary: w)
  case Nil
  then show ?case by simp
next
  case (Cons x xs)
  show ?case
  proof (cases x)
    case (Create t clk)
    show ?thesis
    proof (cases "trim t = []")
      case True
      then have "ids (apply_op x w) = ids w" "create_clocks (x # xs) = create_clocks xs"
        using Create by (simp_all add: ids_create)
      then show ?thesis using Cons.IH [of "apply_op x w"] Cons.prems by simp
    next
      case False
      then have i: "ids (apply_op x w) = toString (dateNow clk) # ids w"
        and c: "create_clocks (x # xs) = dateNow clk # create_clocks xs"
        using Create by (simp_all add: ids_create)
      have d: "distinct (ids (apply_op x w))"
        using Cons.prems(1,3) unfolding i c by simp
      have f: "\<forall>n\<in>set (create_clocks xs). toString n \<notin> set (ids (apply_op x w))"
        using Cons.prems(2,3) unfolding i c by (auto dest: toString_inj)
      have "distinct (create_clocks xs)" using Cons.prems(2) unfolding c by simp
      from Cons.IH [OF d this f] show ?thesis by simp
    qed
  next
    case (Delete blogId confirmed clk)
    then have s: "set (ids (apply_op x w)) \<subseteq> set (ids w)"
      and d: "distinct (ids (apply_op x w))"
      using Cons.prems(1) by (auto simp: ids_delete)
    have "create_clocks (x # xs) = create_clocks xs" using Delete by simp
    then show ?thesis using Cons.IH [OF d] Cons.prems(2,3) s by auto
  qed
qed

text \<open>
  Claim C4 as stated holds of every sequence of create and delete operations.  The id of
  a new document is the clock reading alone, so two documents created on the seeded
  store at the same reading carry the same id.
\<close>

theorem create_same_clock_cex:
  "distinct (ids seeded)
   \<and> ids (run [Create ''First'' clk1, Create ''Second'' clk1] seeded) =
       [''2000'', ''2000'', ''1000'']
   \<and> \<not> distinct (ids (run [Create ''First'' clk1, Create ''Second'' clk1] seeded))"
proof -
  have "ids (run [Create ''First'' clk1, Create ''Second'' clk1] seeded) =
       [''2000'', ''2000'', ''1000'']"
    by (simp add: ids_create trim_def isSpace_def clk1_def toString_2000)
      (simp add: ids_def seeded_eq firstBlog_def clk0_def toString_1000)
  then show ?thesis by (simp add: ids_def seeded_eq)
qed

text \<open>
  Claim C4, amended: if the ids of the collection are pairwise distinct, the clock
  readings at which the sequence creates documents are pairwise distinct, and none of
  them, written in decimal, is an id of the starting collection, then the ids are
  pairwise distinct after every prefix of the sequence of create and delete operations.
\<close>

theorem ids_stay_distinct:
  assumes "distinct (ids w)" and "distinct (create_clocks ops)"
    and "\<forall>n\<in>set (create_clocks ops). toString n \<notin> set (ids w)"
  shows "distinct (ids (run (take k ops) w))"
proof -
  obtain ys where ys: "create_clocks ops = create_clocks (take k ops) @ ys"
    using create_clocks_take by blast
  have "distinct (create_clocks (take k ops))"
    using assms(2) unfolding ys by simp
  moreover have "\<forall>n\<in>set (create_clocks (take k ops)). toString n \<notin> set (ids w)"
    using assms(3) unfolding ys by simp
  ultimately show ?thesis using run_keeps_distinct [OF assms(1)] by blast
qed

theorem ids_stay_distinct_witness:
  "ids (run (take 3 [Create ''First'' clk1, Delete ''1000'' True clk2, Create ''Second'' clk3])
          seeded) = [''5000'', ''2000'']
   \<and> distinct (ids (run (take 3 [Create ''First'' clk1, Delete ''1000'' True clk2,
                                 Create ''Second'' clk3]) seeded))"
proof -
  have t: "toString 5000 = ''5000''"
    by (simp add: toString.simps char_of_eq_iff)
  have cc: "create_clocks [Create ''First'' clk1, Delete ''1000'' True clk2, Create ''Second'' clk3]
      = [2000, 5000]"
    by (simp add: trim_def isSpace_def clk1_def clk3_def)
  have i: "ids seeded = [''1000'']"
    by (simp add: ids_def seeded_eq firstBlog_def clk0_def toString_1000)
  have 1: "distinct (ids seeded)" by (simp add: i)
  have 2: "distinct (create_clocks [Create ''First'' clk1, Delete ''1000'' True clk2,
      Create ''Second'' clk3])"
    unfolding cc by simp
  have 3: "\<forall>n\<in>set (create_clocks [Create ''First'' clk1, Delete ''1000'' True clk2,
      Create ''Second'' clk3]). toString n \<notin> set (ids seeded)"
    unfolding cc i by (simp add: t toString_2000)
  have tk: "take 3 [Create ''First'' clk1, Delete ''1000'' True clk2, Create ''Second'' clk3]
      = [Create ''First'' clk1, Delete ''1000'' True clk2, Create ''Second'' clk3]"
    by simp
  have n1: "trim ''First'' \<noteq> [] \<and> trim ''Second'' \<noteq> []"
    by (simp add: trim_def isSpace_def)
  let ?w1 = "apply_op (Create ''First'' clk1) seeded"
  let ?w2 = "apply_op (Delete ''1000'' True clk2) ?w1"
  have i1: "ids ?w1 = [''2000'', ''1000'']"
    using n1 by (simp add: ids_create i clk1_def toString_2000)
  have l1: "length (blogs (st ?w1)) \<noteq> 1"
    using arg_cong [OF i1, of length] by (simp add: ids_def)
  have i2: "ids ?w2 = [''2000'']"
    using l1 i1 ids_delete [of clk2 True "''1000''" ?w1] by simp
  have i3: "ids (apply_op (Create ''Second'' clk3) ?w2) = [''5000'', ''2000'']"
    using n1 i2 ids_create [of clk3 "''Second''" ?w2] by (simp add: clk3_def t)
  have v: "ids (run (take 3 [Create ''First'' clk1, Delete ''1000'' True clk2,
      Create ''Second'' clk3]) seeded) = [''5000'', ''2000'']"
    unfolding tk using i3 by simp
  show ?thesis
    using ids_stay_distinct [OF 1 2 3, of 3] v by simp
qed

section \<open>Creating a document\<close>

lemma with_notes_eq:
  "with_notes =
     seeded\<lparr>st := (st seeded)\<lparr>blogs := [newBlog clk1 ''Notes'', firstBlog clk0],
                               currentBlogId := Some ''2000'', title := ''Notes''\<rparr>,
            storage := (storage seeded)\<lparr>editor_blogs :=
                          Some [newBlog clk1 ''Notes'', firstBlog clk0]\<rparr>\<rparr>"
  by (simp add: with_notes_def seeded_eq createNewBlog_def Let_def setters saveBlogs_def
      setItem_blogs_def newBlog_def trim_def isSpace_def clk1_def toString_2000)

lemma newBlog_id_iff:
  "(blog_id (newBlog clk t) = blog_id (newBlog clk' t')) = (dateNow clk = dateNow clk')"
  by (auto simp: newBlog_def dest: toString_inj)

lemma create_keeps_distinct:
  assumes "toString (dateNow clk) \<notin> set (ids w)" and "distinct (ids w)"
  shows "distinct (ids (createNewBlog clk w))"
proof -
  have "ids (createNewBlog clk w) =
      (if trim (newBlogTitle (st w)) = [] then ids w else toString (dateNow clk) # ids w)"
    by (simp add: ids_def createNewBlog_def Let_def setters saveBlogs_def setItem_blogs_def
        newBlog_def)
  then show ?thesis using assms by simp
qed

text \<open>
  Claim C9 as stated says that the new document gets a fresh id.  The id is the clock
  reading in decimal and is compared with nothing: the document created on the seeded
  store at the clock reading of the seed document gets the id the seed document has.
\<close>

theorem create_id_not_fresh_cex:
  "ids seeded = [''1000'']
   \<and> blogs (st twins) = [newBlog clk0 ''Twin'', firstBlog clk0]
   \<and> blog_id (newBlog clk0 ''Twin'') = ''1000''
   \<and> blog_id (newBlog clk0 ''Twin'') \<in> set (ids seeded)"
  by (simp add: twins_eq seeded_eq ids_def newBlog_def firstBlog_def clk0_def toString_1000)

text \<open>
  Claim C9, amended: \<open>createNewBlog\<close> changes nothing when the title is empty or only
  white space.  Otherwise it makes a document whose id is the clock reading in decimal
  (two documents get the same id exactly when they are created at the same reading, and
  the ids of the collection stay pairwise distinct when the reading is not among them),
  whose two timestamps are the current date, and whose content is the title between
  \<open>h1\<close> tags followed by the paragraph \<open>Start writing...\<close>; it hands the collection with
  that document in front to the state and to the storage and makes the document
  current.  On the seeded store, creating \<open>Notes\<close> returns with the two documents
  \<open>Notes\<close> and \<open>Welcome\<close> in memory and in the storage, \<open>Notes\<close> current and its
  content \<^verbatim>\<open><h1>Notes</h1><p>Start writing...</p>\<close>.
\<close>

theorem createNewBlog_spec:
  "createNewBlog clk w =
     (if trim (newBlogTitle (st w)) = [] then w
      else w\<lparr>st := (st w)\<lparr>blogs := newBlog clk (newBlogTitle (st w)) # blogs (st w),
                           currentBlogId := Some (blog_id (newBlog clk (newBlogTitle (st w)))),
                           title := newBlogTitle (st w),
                           newBlogTitle := [],
                           showNewBlogForm := False\<rparr>,
             storage := (if quotaExceeded (storage w) then storage w
                         else (storage w)\<lparr>editor_blogs :=
                                Some (newBlog clk (newBlogTitle (st w)) # blogs (st w))\<rparr>)\<rparr>)
   \<and> blog_id (newBlog clk t) = toString (dateNow clk)
   \<and> fromDigits 0 (blog_id (newBlog clk t)) = dateNow clk
   \<and> (blog_id (newBlog clk t) = blog_id (newBlog clk' t')) = (dateNow clk = dateNow clk')
   \<and> (toString (dateNow clk) \<notin> set (ids w) \<and> distinct (ids w) \<longrightarrow>
        distinct (ids (createNewBlog clk w)))
   \<and> blog_title (newBlog clk t) = t
   \<and> blog_content (newBlog clk t) = ''<h1>'' @ t @ ''</h1><p>Start writing...</p>''
   \<and> blog_createdAt (newBlog clk t) = localeString clk
   \<and> blog_lastSaved (newBlog clk t) = localeString clk
   \<and> map blog_title (blogs (st with_notes)) = [''Notes'', ''Welcome'']
   \<and> ids with_notes = [''2000'', ''1000'']
   \<and> currentBlogId (st with_notes) = Some ''2000''
   \<and> blog_content (hd (blogs (st with_notes))) = ''<h1>Notes</h1><p>Start writing...</p>''
   \<and> editor_blogs (storage with_notes) = Some (blogs (st with_notes))"
proof -
  have eq: "createNewBlog clk w =
     (if trim (newBlogTitle (st w)) = [] then w
      else w\<lparr>st := (st w)\<lparr>blogs := newBlog clk (newBlogTitle (st w)) # blogs (st w),
                           currentBlogId := Some (blog_id (newBlog clk (newBlogTitle (st w)))),
                           title := newBlogTitle (st w),
                           newBlogTitle := [],
                           showNewBlogForm := False\<rparr>,
             storage := (if quotaExceeded (storage w) then storage w
                         else (storage w)\<lparr>editor_blogs :=
                                Some (newBlog clk (newBlogTitle (st w)) # blogs (st w))\<rparr>)\<rparr>)"
    by (simp add: createNewBlog_def Let_def setters saveBlogs_def setItem_blogs_def newBlog_def)
  have sc: "map blog_title (blogs (st with_notes)) = [''Notes'', ''Welcome'']
     \<and> ids with_notes = [''2000'', ''1000'']
     \<and> currentBlogId (st with_notes) = Some ''2000''
     \<and> blog_content (hd (blogs (st with_notes))) = ''<h1>Notes</h1><p>Start writing...</p>''
     \<and> editor_blogs (storage with_notes) = Some (blogs (st with_notes))"
    by (simp add: with_notes_eq seeded_eq ids_def newBlog_def firstBlog_def clk0_def clk1_def
        toString_1000 toString_2000)
  have rd: "fromDigits 0 (blog_id (newBlog clk t)) = dateNow clk"
    by (simp add: newBlog_def fromDigits_toString)
  have fields: "blog_id (newBlog clk t) = toString (dateNow clk)
     \<and> blog_title (newBlog clk t) = t
     \<and> blog_content (newBlog clk t) = ''<h1>'' @ t @ ''</h1><p>Start writing...</p>''
     \<and> blog_createdAt (newBlog clk t) = localeString clk
     \<and> blog_lastSaved (newBlog clk t) = localeString clk"
    by (simp add: newBlog_def)
  show ?thesis
    using eq sc rd fields newBlog_id_iff [of clk t clk' t'] create_keeps_distinct [of clk w]
    by blast
qed

theorem createNewBlog_spec_witness:
  "createNewBlog clk1 (setNewBlogTitle [CHR '' '', CHR 0x09] seeded)
     = setNewBlogTitle [CHR '' '', CHR 0x09] seeded
   \<and> blogs (st (createNewBlog clk1 (setNewBlogTitle ''Notes'' seeded)))
     = [newBlog clk1 ''Notes'', firstBlog clk0]
   \<and> distinct (ids (createNewBlog clk1 (setNewBlogTitle ''Notes'' seeded)))"
proof -
  let ?blank = "setNewBlogTitle [CHR '' '', CHR 0x09] seeded"
  let ?typed = "setNewBlogTitle ''Notes'' seeded"
  have a: "trim (newBlogTitle (st ?blank)) = []"
    by (simp add: setters trim_def isSpace_def)
  have b: "trim (newBlogTitle (st ?typed)) \<noteq> []"
    by (simp add: setters trim_def isSpace_def)
  have c: "toString (dateNow clk1) \<notin> set (ids ?typed) \<and> distinct (ids ?typed)"
    unfolding ids_setNewBlogTitle
    by (simp add: ids_def seeded_eq firstBlog_def clk0_def clk1_def toString_1000 toString_2000)
  note blank = createNewBlog_spec [of clk1 ?blank "[]" clk1 "[]"]
  note typed = createNewBlog_spec [of clk1 ?typed "[]" clk1 "[]"]
  have e1: "createNewBlog clk1 ?blank = ?blank"
    using blank [THEN conjunct1] a by simp
  have "blogs (st (createNewBlog clk1 ?typed)) =
      newBlog clk1 (newBlogTitle (st ?typed)) # blogs (st ?typed)"
    using typed [THEN conjunct1] b by simp
  then have e2: "blogs (st (createNewBlog clk1 ?typed)) = [newBlog clk1 ''Notes'', firstBlog clk0]"
    by (simp add: setters seeded_eq)
  have e3: "distinct (ids (createNewBlog clk1 ?typed))"
    using typed c by blast
  show ?thesis using e1 e2 e3 by blast
qed

section \<open>The title effect after a create and after a delete\<close>

text \<open>
  \<open>createNewBlog\<close> does not load the new document into the editor, so the editor still
  holds the content of the document shown before; when the title effect runs next, it
  writes that content into the new document.  After the deletion of the active document,
  the title effect stores the collection in memory again, which no longer has the deleted
  document.
\<close>

lemma title_effect_after_create:
  "rteInstance with_notes = Some (blog_content (firstBlog clk0))
   \<and> map blog_content (blogs (st (titleEffect clk2 with_notes))) =
       [blog_content (firstBlog clk0), blog_content (firstBlog clk0)]"
  by (simp add: with_notes_eq seeded_eq titleEffect_def Let_def setters saveBlogs_def
      setItem_blogs_def newBlog_def firstBlog_def clk1_def clk0_def toString_2000 toString_1000)

lemma title_effect_after_delete:
  "map_option (map blog_id)
     (editor_blogs (storage (titleEffect clk3 (world_of (deleteBlog clk2 True ''101'' edited))))) =
   Some [''102'']"
proof -
  have 1: "currentBlogId (st edited) = Some ''101''" "length (blogs (st edited)) \<noteq> 1"
    "rteInstance edited = Some ''X''" "\<not> quotaExceeded (storage edited)"
    "filter (\<lambda>b. blog_id b \<noteq> ''101'') (blogs (st edited)) = docB # []"
    by (simp_all add: edited_eq two_stored_def docA_def docB_def)
  show ?thesis
    using deleteBlog_active [OF 1, of clk2]
    by (simp add: titleEffect_def Let_def setters saveBlogs_def setItem_blogs_def docB_def
        edited_eq two_stored_def)
qed

end
